theory Spec2Isabelle
  imports Main "HOL-Library.Word"
begin

section \<open>Data model of the renderer's handle registry\<close>

text \<open>
  The embedding follows \<^verbatim>\<open>src/anbox/graphics/emugl/Renderer.cpp\<close>. Handles are
  32-bit unsigned integers (\<^verbatim>\<open>HandleType\<close>), so \<^verbatim>\<open>++s_nextHandle\<close> wraps
  around. The three registry tables are \<^verbatim>\<open>std::map\<close>s keyed by handle and are
  modelled as partial functions. Entries are inserted only behind a
  \<^verbatim>\<open>Ptr() != NULL\<close> test, so the context and the window table hold objects;
  a smart pointer that may be \<^verbatim>\<open>NULL\<close> elsewhere is an \<open>option\<close>.
\<close>

type_synonym HandleType = "32 word"

text \<open>Opaque values of the native driver; \<open>0\<close> stands for \<^verbatim>\<open>EGL_NO_CONTEXT\<close>
  and \<^verbatim>\<open>EGL_NO_SURFACE\<close>.\<close>

type_synonym EGLContext = nat
type_synonym EGLSurface = nat
type_synonym EGLConfig = nat

text \<open>Modelled from the spec: the classes \<^verbatim>\<open>RenderContext\<close>, \<^verbatim>\<open>WindowSurface\<close>
  and \<^verbatim>\<open>ColorBuffer\<close> are declared outside the source file. An object is
  represented by its address together with what the renderer reads from it
  (\<^verbatim>\<open>getEGLContext()\<close>, \<^verbatim>\<open>isGL2()\<close>, \<^verbatim>\<open>getEGLSurface()\<close>); a colour buffer
  pointer is the address only.\<close>

record RenderContext =
  rc_addr :: nat
  eglContext :: EGLContext
  isGL2 :: bool

record WindowSurface =
  ws_addr :: nat
  eglSurface :: EGLSurface

type_synonym RenderContextPtr = "RenderContext option"
type_synonym WindowSurfacePtr = "WindowSurface option"
type_synonym ColorBufferPtr = "nat option"

text \<open>Modelled from the spec: \<^verbatim>\<open>ColorBufferRef\<close> is declared in the header, which
  is not part of the sources. The reference count is the spec's integer, held in a
  32-bit unsigned machine counter as in the source: \<^verbatim>\<open>refcount++\<close> wraps from
  \<open>0xFFFFFFFF\<close> to 0 and \<^verbatim>\<open>--refcount\<close> from 0 to \<open>0xFFFFFFFF\<close>.\<close>

record ColorBufferRef =
  cb :: ColorBufferPtr
  refcount :: "32 word"

text \<open>Modelled from the spec: \<^verbatim>\<open>RenderThreadInfo\<close> is the thread-local record
  returned by \<^verbatim>\<open>RenderThreadInfo::get()\<close>. The two \<^verbatim>\<open>std::set<HandleType>\<close>
  members are kept as lists in iteration order; the decoder fields record the
  context whose decoder data was last installed.\<close>

record RenderThreadInfo =
  currContext :: RenderContextPtr
  currDrawSurf :: WindowSurfacePtr
  currReadSurf :: WindowSurfacePtr
  m_contextSet :: "HandleType list"
  m_windowSet :: "HandleType list"
  m_glDec :: RenderContextPtr
  m_gl2Dec :: RenderContextPtr

datatype BindType = BIND_READ | BIND_DRAW | BIND_READDRAW

text \<open>Calls into collaborators whose code is outside the file are logged, in
  order, so that "no backend object creation was attempted" is a statement
  about the log.\<close>

datatype backend_call =
    ColorBuffer_create int int nat
  | RenderContext_create EGLConfig EGLContext bool
  | WindowSurface_create EGLConfig int int
  | WindowSurface_setColorBuffer nat ColorBufferPtr
  | WindowSurface_bind nat RenderContextPtr BindType

text \<open>The renderer. \<open>tinfo\<close> gives every thread (numbered by a \<open>nat\<close>) its
  thread-local record. Modelled from the spec: the backend's "make current" and
  "query current" calls act on a single binding slot
  (\<open>egl_currentContext\<close>, \<open>egl_currentReadSurf\<close>, \<open>egl_currentDrawSurf\<close>);
  which requests the driver accepts is the parameter \<open>egl_accepts\<close>, and
  \<open>m_configs\<close> is the configuration list consulted by
  \<^verbatim>\<open>getConfigs()->get(p_config)\<close>.\<close>

record Renderer =
  s_nextHandle :: HandleType
  m_colorbuffers :: "HandleType \<rightharpoonup> ColorBufferRef"
  m_contexts :: "HandleType \<rightharpoonup> RenderContext"
  m_windows :: "HandleType \<rightharpoonup> (WindowSurface \<times> HandleType)"
  tinfo :: "nat \<Rightarrow> RenderThreadInfo"
  m_configs :: "int \<rightharpoonup> EGLConfig"
  egl_accepts :: "EGLSurface \<Rightarrow> EGLSurface \<Rightarrow> EGLContext \<Rightarrow> bool"
  egl_currentContext :: EGLContext
  egl_currentReadSurf :: EGLSurface
  egl_currentDrawSurf :: EGLSurface
  m_pbufSurface :: EGLSurface
  m_pbufContext :: EGLContext
  m_prevContext :: EGLContext
  m_prevReadSurf :: EGLSurface
  m_prevDrawSurf :: EGLSurface
  calls :: "backend_call list"

subsection \<open>\<^verbatim>\<open>std::set<HandleType>\<close> operations\<close>

definition set_insert :: "HandleType \<Rightarrow> HandleType list \<Rightarrow> HandleType list" where
  "set_insert h hs = (if h \<in> set hs then hs else insort h hs)"

definition set_erase :: "HandleType \<Rightarrow> HandleType list \<Rightarrow> HandleType list" where
  "set_erase h hs = removeAll h hs"

section \<open>Handle allocator\<close>

text \<open>\<^verbatim>\<open>do { id = ++s_nextHandle; } while (id == 0 || m_contexts.find(id) != end
  || m_windows.find(id) != end)\<close>. The loop need not terminate; \<open>None\<close> is
  the run that never returns.\<close>

partial_function (option) genHandle :: "Renderer \<Rightarrow> (HandleType \<times> Renderer) option" where
  "genHandle st =
     (let id = s_nextHandle st + 1;
          st' = st\<lparr>s_nextHandle := id\<rparr>
      in if id = 0 \<or> m_contexts st' id \<noteq> None \<or> m_windows st' id \<noteq> None
         then genHandle st'
         else Some (id, st'))"

section \<open>Object registry\<close>

definition createColorBuffer ::
  "(int \<Rightarrow> int \<Rightarrow> nat \<Rightarrow> ColorBufferPtr) \<Rightarrow> int \<Rightarrow> int \<Rightarrow> nat \<Rightarrow> Renderer
     \<Rightarrow> (HandleType \<times> Renderer) option" where
  "createColorBuffer mk p_width p_height p_internalFormat st =
     (let st1 = st\<lparr>calls := calls st @ [ColorBuffer_create p_width p_height p_internalFormat]\<rparr>;
          cbp = mk p_width p_height p_internalFormat
      in if cbp \<noteq> None then
           (case genHandle st1 of
              None \<Rightarrow> None
            | Some (ret, st2) \<Rightarrow>
                Some (ret, st2\<lparr>m_colorbuffers :=
                  (m_colorbuffers st2)(ret \<mapsto> \<lparr>cb = cbp, refcount = 1\<rparr>)\<rparr>))
         else Some (0, st1))"

definition createRenderContext ::
  "(EGLConfig \<Rightarrow> EGLContext \<Rightarrow> bool \<Rightarrow> RenderContextPtr) \<Rightarrow> nat \<Rightarrow> int \<Rightarrow> HandleType \<Rightarrow> bool
     \<Rightarrow> Renderer \<Rightarrow> (HandleType \<times> Renderer) option" where
  "createRenderContext mk t p_config p_share p_isGL2 st =
     (case m_configs st p_config of
        None \<Rightarrow> Some (0, st)
      | Some config \<Rightarrow>
          (let share =
                 (if p_share \<noteq> 0 then
                    (case m_contexts st p_share of
                       None \<Rightarrow> None
                     | Some s \<Rightarrow> Some (Some s))
                  else Some None)
           in case share of
                None \<Rightarrow> Some (0, st)
              | Some sh \<Rightarrow>
                  (let sharedContext = (case sh of Some s \<Rightarrow> eglContext s | None \<Rightarrow> 0);
                       st1 = st\<lparr>calls := calls st @ [RenderContext_create config sharedContext p_isGL2]\<rparr>;
                       rctx = mk config sharedContext p_isGL2
                   in case rctx of
                        None \<Rightarrow> Some (0, st1)
                      | Some rc \<Rightarrow>
                          (case genHandle st1 of
                             None \<Rightarrow> None
                           | Some (ret, st2) \<Rightarrow>
                               Some (ret, st2\<lparr>m_contexts := (m_contexts st2)(ret \<mapsto> rc),
                                 tinfo := (tinfo st2)(t := (tinfo st2 t)
                                   \<lparr>m_contextSet := set_insert ret (m_contextSet (tinfo st2 t))\<rparr>)\<rparr>)))))"

definition createWindowSurface ::
  "(EGLConfig \<Rightarrow> int \<Rightarrow> int \<Rightarrow> WindowSurfacePtr) \<Rightarrow> nat \<Rightarrow> int \<Rightarrow> int \<Rightarrow> int
     \<Rightarrow> Renderer \<Rightarrow> (HandleType \<times> Renderer) option" where
  "createWindowSurface mk t p_config p_width p_height st =
     (case m_configs st p_config of
        None \<Rightarrow> Some (0, st)
      | Some config \<Rightarrow>
          (let st1 = st\<lparr>calls := calls st @ [WindowSurface_create config p_width p_height]\<rparr>;
               win = mk config p_width p_height
           in case win of
                None \<Rightarrow> Some (0, st1)
              | Some w \<Rightarrow>
                  (case genHandle st1 of
                     None \<Rightarrow> None
                   | Some (ret, st2) \<Rightarrow>
                       Some (ret, st2\<lparr>m_windows := (m_windows st2)(ret \<mapsto> (w, 0)),
                         tinfo := (tinfo st2)(t := (tinfo st2 t)
                           \<lparr>m_windowSet := set_insert ret (m_windowSet (tinfo st2 t))\<rparr>)\<rparr>))))"

subsection \<open>Draining a thread\<close>

definition drainRenderContext :: "nat \<Rightarrow> Renderer \<Rightarrow> Renderer" where
  "drainRenderContext t st =
     (if m_contextSet (tinfo st t) = [] then st
      else st\<lparr>m_contexts :=
                 fold (\<lambda>contextHandle m. m(contextHandle := None))
                   (m_contextSet (tinfo st t)) (m_contexts st),
              tinfo := (tinfo st)(t := (tinfo st t)\<lparr>m_contextSet := []\<rparr>)\<rparr>)"

text \<open>\<^verbatim>\<open>if (--(*cit).second.refcount == 0) { m_colorbuffers.erase(cit); }\<close> after a
  successful \<^verbatim>\<open>find\<close>; a failed \<^verbatim>\<open>find\<close> changes nothing.\<close>

definition release_ref ::
  "HandleType \<Rightarrow> (HandleType \<rightharpoonup> ColorBufferRef) \<Rightarrow> (HandleType \<rightharpoonup> ColorBufferRef)" where
  "release_ref h m =
     (case m h of
        None \<Rightarrow> m
      | Some c \<Rightarrow>
          (if refcount c - 1 = 0 then m(h := None)
           else m(h \<mapsto> c\<lparr>refcount := refcount c - 1\<rparr>)))"

text \<open>One iteration of the loop of \<^verbatim>\<open>drainWindowSurface\<close>.\<close>

definition drainWindowSurface_step :: "HandleType \<Rightarrow> Renderer \<Rightarrow> Renderer" where
  "drainWindowSurface_step windowHandle st =
     (case m_windows st windowHandle of
        None \<Rightarrow> st
      | Some (ws, oldColorBufferHandle) \<Rightarrow>
          (let st1 = (if oldColorBufferHandle \<noteq> 0
                      then st\<lparr>m_colorbuffers := release_ref oldColorBufferHandle (m_colorbuffers st)\<rparr>
                      else st)
           in st1\<lparr>m_windows := (m_windows st1)(windowHandle := None)\<rparr>))"

definition drainWindowSurface :: "nat \<Rightarrow> Renderer \<Rightarrow> Renderer" where
  "drainWindowSurface t st =
     (if m_windowSet (tinfo st t) = [] then st
      else (let st1 = fold drainWindowSurface_step (m_windowSet (tinfo st t)) st
            in st1\<lparr>tinfo := (tinfo st1)(t := (tinfo st1 t)\<lparr>m_windowSet := []\<rparr>)\<rparr>))"

subsection \<open>Explicit destruction\<close>

definition DestroyRenderContext :: "nat \<Rightarrow> HandleType \<Rightarrow> Renderer \<Rightarrow> Renderer" where
  "DestroyRenderContext t p_context st =
     (let st1 = st\<lparr>m_contexts := (m_contexts st)(p_context := None)\<rparr>
      in if m_contextSet (tinfo st1 t) = [] then st1
         else st1\<lparr>tinfo := (tinfo st1)(t := (tinfo st1 t)
                \<lparr>m_contextSet := set_erase p_context (m_contextSet (tinfo st1 t))\<rparr>)\<rparr>)"

definition DestroyWindowSurface :: "nat \<Rightarrow> HandleType \<Rightarrow> Renderer \<Rightarrow> Renderer" where
  "DestroyWindowSurface t p_surface st =
     (if m_windows st p_surface \<noteq> None then
        (let st1 = st\<lparr>m_windows := (m_windows st)(p_surface := None)\<rparr>
         in if m_windowSet (tinfo st1 t) = [] then st1
            else st1\<lparr>tinfo := (tinfo st1)(t := (tinfo st1 t)
                   \<lparr>m_windowSet := set_erase p_surface (m_windowSet (tinfo st1 t))\<rparr>)\<rparr>)
      else st)"

subsection \<open>Colour buffer references\<close>

definition openColorBuffer :: "HandleType \<Rightarrow> Renderer \<Rightarrow> int \<times> Renderer" where
  "openColorBuffer p_colorbuffer st =
     (case m_colorbuffers st p_colorbuffer of
        None \<Rightarrow> (- 1, st)
      | Some c \<Rightarrow>
          (0, st\<lparr>m_colorbuffers :=
                (m_colorbuffers st)(p_colorbuffer \<mapsto> c\<lparr>refcount := refcount c + 1\<rparr>)\<rparr>))"

definition closeColorBuffer :: "HandleType \<Rightarrow> Renderer \<Rightarrow> Renderer" where
  "closeColorBuffer p_colorbuffer st =
     (case m_colorbuffers st p_colorbuffer of
        None \<Rightarrow> st
      | Some c \<Rightarrow> st\<lparr>m_colorbuffers := release_ref p_colorbuffer (m_colorbuffers st)\<rparr>)"

definition setWindowSurfaceColorBuffer :: "HandleType \<Rightarrow> HandleType \<Rightarrow> Renderer \<Rightarrow> bool \<times> Renderer" where
  "setWindowSurfaceColorBuffer p_surface p_colorbuffer st =
     (case m_windows st p_surface of
        None \<Rightarrow> (False, st)
      | Some (ws, attached) \<Rightarrow>
          (case m_colorbuffers st p_colorbuffer of
             None \<Rightarrow> (False, st)
           | Some c \<Rightarrow>
               (True, st\<lparr>m_windows := (m_windows st)(p_surface \<mapsto> (ws, p_colorbuffer)),
                  calls := calls st @ [WindowSurface_setColorBuffer (ws_addr ws) (cb c)]\<rparr>)))"

section \<open>Binding state machine\<close>

definition eglMakeCurrent :: "EGLSurface \<Rightarrow> EGLSurface \<Rightarrow> EGLContext \<Rightarrow> Renderer \<Rightarrow> bool \<times> Renderer" where
  "eglMakeCurrent draw read ctx st =
     (if egl_accepts st draw read ctx
      then (True, st\<lparr>egl_currentContext := ctx, egl_currentReadSurf := read,
                     egl_currentDrawSurf := draw\<rparr>)
      else (False, st))"

text \<open>The first half of \<^verbatim>\<open>bindContext\<close>: the handle look-ups. \<open>None\<close> is one of
  the three early \<^verbatim>\<open>return false\<close> statements.\<close>

definition bindContext_lookup ::
  "HandleType \<Rightarrow> HandleType \<Rightarrow> HandleType \<Rightarrow> Renderer
     \<Rightarrow> (RenderContextPtr \<times> WindowSurfacePtr \<times> WindowSurfacePtr) option" where
  "bindContext_lookup p_context p_drawSurface p_readSurface st =
     (if p_context \<noteq> 0 \<or> p_drawSurface \<noteq> 0 \<or> p_readSurface \<noteq> 0 then
        (case m_contexts st p_context of
           None \<Rightarrow> None
         | Some r \<Rightarrow>
             (case m_windows st p_drawSurface of
                None \<Rightarrow> None
              | Some (d, a) \<Rightarrow>
                  (if p_readSurface \<noteq> p_drawSurface then
                     (case m_windows st p_readSurface of
                        None \<Rightarrow> None
                      | Some (rd, a') \<Rightarrow> Some (Some r, Some d, Some rd))
                   else Some (Some r, Some d, Some d))))
      else Some (None, None, None))"

text \<open>The calls \<^verbatim>\<open>bindDraw->bind(ctx, ...)\<close> and \<^verbatim>\<open>bindRead->bind(ctx, ...)\<close>.\<close>

definition bindContext_surfaces ::
  "RenderContextPtr \<Rightarrow> WindowSurfacePtr \<Rightarrow> WindowSurfacePtr \<Rightarrow> backend_call list" where
  "bindContext_surfaces ctx bindDraw bindRead =
     (case bindDraw of
        None \<Rightarrow> []
      | Some bd \<Rightarrow>
          (case bindRead of
             None \<Rightarrow> []
           | Some br \<Rightarrow>
               (if ws_addr bd \<noteq> ws_addr br
                then [WindowSurface_bind (ws_addr bd) ctx BIND_DRAW,
                      WindowSurface_bind (ws_addr br) ctx BIND_READ]
                else [WindowSurface_bind (ws_addr bd) ctx BIND_READDRAW])))"

definition bindContext ::
  "nat \<Rightarrow> HandleType \<Rightarrow> HandleType \<Rightarrow> HandleType \<Rightarrow> Renderer \<Rightarrow> bool \<times> Renderer" where
  "bindContext t p_context p_drawSurface p_readSurface st =
     (case bindContext_lookup p_context p_drawSurface p_readSurface st of
        None \<Rightarrow> (False, st)
      | Some (ctx, draw, read) \<Rightarrow>
          (case eglMakeCurrent
                  (case draw of Some d \<Rightarrow> eglSurface d | None \<Rightarrow> 0)
                  (case read of Some r \<Rightarrow> eglSurface r | None \<Rightarrow> 0)
                  (case ctx of Some c \<Rightarrow> eglContext c | None \<Rightarrow> 0) st of
             (False, st1) \<Rightarrow> (False, st1)
           | (True, st1) \<Rightarrow>
               (let ti = tinfo st1 t;
                    bindDraw = (if draw = None \<and> read = None then currDrawSurf ti else draw);
                    bindRead = (if draw = None \<and> read = None then currReadSurf ti else read);
                    st2 = st1\<lparr>calls := calls st1 @ bindContext_surfaces ctx bindDraw bindRead\<rparr>;
                    ti' = ti\<lparr>currContext := ctx, currDrawSurf := draw, currReadSurf := read,
                             m_glDec := (case ctx of
                                           Some c \<Rightarrow> (if isGL2 c then m_glDec ti else ctx)
                                         | None \<Rightarrow> None),
                             m_gl2Dec := (case ctx of
                                            Some c \<Rightarrow> (if isGL2 c then ctx else m_gl2Dec ti)
                                          | None \<Rightarrow> None)\<rparr>
                in (True, st2\<lparr>tinfo := (tinfo st2)(t := ti')\<rparr>))))"

subsection \<open>Nested internal bind\<close>

definition bind_locked :: "Renderer \<Rightarrow> bool \<times> Renderer" where
  "bind_locked st =
     (let prevContext = egl_currentContext st;
          prevReadSurf = egl_currentReadSurf st;
          prevDrawSurf = egl_currentDrawSurf st
      in case eglMakeCurrent (m_pbufSurface st) (m_pbufSurface st) (m_pbufContext st) st of
           (False, st1) \<Rightarrow> (False, st1)
         | (True, st1) \<Rightarrow>
             (True, st1\<lparr>m_prevContext := prevContext, m_prevReadSurf := prevReadSurf,
                        m_prevDrawSurf := prevDrawSurf\<rparr>))"

definition unbind_locked :: "Renderer \<Rightarrow> bool \<times> Renderer" where
  "unbind_locked st =
     (case eglMakeCurrent (m_prevDrawSurf st) (m_prevReadSurf st) (m_prevContext st) st of
        (False, st1) \<Rightarrow> (False, st1)
      | (True, st1) \<Rightarrow>
          (True, st1\<lparr>m_prevContext := 0, m_prevReadSurf := 0, m_prevDrawSurf := 0\<rparr>))"

text \<open>\<^verbatim>\<open>ScopedBind\<close>: \<open>mFb\<close> is \<open>True\<close> while the member pointer is not
  \<^verbatim>\<open>NULL\<close>. The scope object and the renderer it points to travel together.\<close>

record ScopedBind =
  mFb :: bool

definition ScopedBind_ctor :: "Renderer \<Rightarrow> ScopedBind \<times> Renderer" where
  "ScopedBind_ctor st =
     (case bind_locked st of
        (False, st1) \<Rightarrow> (\<lparr>mFb = False\<rparr>, st1)
      | (True, st1) \<Rightarrow> (\<lparr>mFb = True\<rparr>, st1))"

definition isValid :: "ScopedBind \<Rightarrow> bool" where
  "isValid sb = mFb sb"

definition release :: "ScopedBind \<times> Renderer \<Rightarrow> ScopedBind \<times> Renderer" where
  "release p =
     (case p of (sb, st) \<Rightarrow>
        (if mFb sb then (sb\<lparr>mFb := False\<rparr>, snd (unbind_locked st)) else (sb, st)))"

section \<open>Example states\<close>

definition idle_thread :: RenderThreadInfo where
  "idle_thread = \<lparr>currContext = None, currDrawSurf = None, currReadSurf = None,
     m_contextSet = [], m_windowSet = [], m_glDec = None, m_gl2Dec = None\<rparr>"

text \<open>A freshly initialised renderer with one known configuration and a driver
  that accepts every request.\<close>

definition fresh :: Renderer where
  "fresh = \<lparr>s_nextHandle = 0, m_colorbuffers = Map.empty, m_contexts = Map.empty,
     m_windows = Map.empty, tinfo = (\<lambda>t. idle_thread), m_configs = [0 \<mapsto> 7],
     egl_accepts = (\<lambda>d r c. True), egl_currentContext = 0, egl_currentReadSurf = 0,
     egl_currentDrawSurf = 0, m_pbufSurface = 11, m_pbufContext = 12,
     m_prevContext = 0, m_prevReadSurf = 0, m_prevDrawSurf = 0, calls = []\<rparr>"

definition bound_thread :: Renderer where
  "bound_thread = fresh\<lparr>s_nextHandle := 2,
     m_contexts := [1 \<mapsto> \<lparr>rc_addr = 100, eglContext = 21, isGL2 = True\<rparr>],
     m_windows := [2 \<mapsto> (\<lparr>ws_addr = 200, eglSurface = 31\<rparr>, 0)],
     tinfo := (\<lambda>t. idle_thread)(0 := idle_thread\<lparr>
        currContext := Some \<lparr>rc_addr = 100, eglContext = 21, isGL2 = True\<rparr>,
        currDrawSurf := Some \<lparr>ws_addr = 200, eglSurface = 31\<rparr>,
        currReadSurf := Some \<lparr>ws_addr = 200, eglSurface = 31\<rparr>,
        m_contextSet := [1], m_windowSet := [2]\<rparr>),
     egl_currentContext := 21, egl_currentReadSurf := 31, egl_currentDrawSurf := 31\<rparr>"

text \<open>The same renderer on a driver that refuses every request.\<close>

definition stubborn_driver :: Renderer where
  "stubborn_driver = bound_thread\<lparr>egl_accepts := (\<lambda>d r c. False)\<rparr>"

text \<open>The state after the first successful \<^verbatim>\<open>createColorBuffer\<close> on \<open>fresh\<close>.\<close>

definition one_buffer :: "Renderer" where
  "one_buffer = fresh\<lparr>s_nextHandle := 1,
     m_colorbuffers := [1 \<mapsto> \<lparr>cb = Some 500, refcount = 1\<rparr>],
     calls := [ColorBuffer_create 64 64 0]\<rparr>"

text \<open>Two threads: thread 0 created contexts 1 and 2 and surface 3, thread 1 created
  context 4 and surface 6. Colour buffer 5 was opened once after its creation and is
  attached to surface 3.\<close>

definition two_threads :: Renderer where
  "two_threads = fresh\<lparr>s_nextHandle := 6,
     m_colorbuffers := [5 \<mapsto> \<lparr>cb = Some 500, refcount = 2\<rparr>],
     m_contexts := [1 \<mapsto> \<lparr>rc_addr = 100, eglContext = 21, isGL2 = True\<rparr>,
                    2 \<mapsto> \<lparr>rc_addr = 101, eglContext = 22, isGL2 = False\<rparr>,
                    4 \<mapsto> \<lparr>rc_addr = 102, eglContext = 23, isGL2 = True\<rparr>],
     m_windows := [3 \<mapsto> (\<lparr>ws_addr = 200, eglSurface = 31\<rparr>, 5),
                   6 \<mapsto> (\<lparr>ws_addr = 201, eglSurface = 32\<rparr>, 0)],
     tinfo := (\<lambda>t. idle_thread)
       (0 := idle_thread\<lparr>m_contextSet := [1, 2], m_windowSet := [3]\<rparr>,
        1 := idle_thread\<lparr>m_contextSet := [4], m_windowSet := [6]\<rparr>)\<rparr>"

text \<open>\<open>two_threads\<close> with a second colour buffer, handle 7.\<close>

definition reattach :: Renderer where
  "reattach = two_threads\<lparr>m_colorbuffers :=
     [5 \<mapsto> \<lparr>cb = Some 500, refcount = 2\<rparr>, 7 \<mapsto> \<lparr>cb = Some 501, refcount = 1\<rparr>]\<rparr>"

text \<open>Thread 0 created context 1 and thread 1 destroyed it, which leaves handle 1 in
  the context set of thread 0; the counter has since reached its last value.\<close>

definition stale_owner :: Renderer where
  "stale_owner = fresh\<lparr>s_nextHandle := 0xFFFFFFFF,
     tinfo := (\<lambda>t. idle_thread)(0 := idle_thread\<lparr>m_contextSet := [1]\<rparr>)\<rparr>"

text \<open>\<open>stale_owner\<close> after thread 1 has created a context, which gets handle 1.\<close>

definition reissued :: Renderer where
  "reissued = fresh\<lparr>s_nextHandle := 1,
     m_contexts := [1 \<mapsto> \<lparr>rc_addr = 103, eglContext = 24, isGL2 = True\<rparr>],
     tinfo := (\<lambda>t. idle_thread)
       (0 := idle_thread\<lparr>m_contextSet := [1]\<rparr>,
        1 := idle_thread\<lparr>m_contextSet := [1]\<rparr>),
     calls := [RenderContext_create 7 0 True]\<rparr>"

text \<open>The counter has reached its last value while colour buffer 1, the first object
  ever created, is still open.\<close>

definition wrapped :: Renderer where
  "wrapped = fresh\<lparr>s_nextHandle := 0xFFFFFFFF,
     m_colorbuffers := [1 \<mapsto> \<lparr>cb = Some 500, refcount = 2\<rparr>]\<rparr>"

section \<open>Notions used in the statements\<close>

text \<open>\<open>n\<close> successive \<^verbatim>\<open>openColorBuffer\<close> and \<^verbatim>\<open>closeColorBuffer\<close> calls on one
  handle.\<close>

definition opens :: "HandleType \<Rightarrow> nat \<Rightarrow> Renderer \<Rightarrow> Renderer" where
  "opens h n = (\<lambda>st. snd (openColorBuffer h st)) ^^ n"

definition closes :: "HandleType \<Rightarrow> nat \<Rightarrow> Renderer \<Rightarrow> Renderer" where
  "closes h n = closeColorBuffer h ^^ n"

text \<open>Surface \<open>w\<close> is live and records \<open>b\<close> as its attached colour buffer.\<close>

definition attached_to :: "Renderer \<Rightarrow> HandleType \<Rightarrow> HandleType \<Rightarrow> bool" where
  "attached_to st b w = (case m_windows st w of None \<Rightarrow> False | Some (s, a) \<Rightarrow> a = b)"

text \<open>The number of references to colour buffer \<open>b\<close> that draining the handles \<open>ws\<close>
  releases: the live surfaces among \<open>ws\<close> that record \<open>b\<close>, none for the handle 0.\<close>

definition drained_refs :: "Renderer \<Rightarrow> HandleType list \<Rightarrow> HandleType \<Rightarrow> nat" where
  "drained_refs st ws b =
     (if b = 0 then 0
      else length (filter (\<lambda>w. case m_windows st w of None \<Rightarrow> False | Some (s, a) \<Rightarrow> a = b)
             (remdups ws)))"

section \<open>Basic facts\<close>

lemma release_ref_other: "h' \<noteq> h \<Longrightarrow> release_ref h m h' = m h'"
  by (simp add: release_ref_def split: option.splits)

subsection \<open>What the allocator guarantees\<close>

text \<open>A returned handle is not 0 and is free in the context and the window table; the
  colour buffer table is not consulted. The loop returns whenever some non-zero handle
  is free in those two tables.\<close>

lemma genHandle_result_aux:
  assumes "genHandle st = Some y"
  shows "fst y \<noteq> 0 \<and> m_contexts st (fst y) = None \<and> m_windows st (fst y) = None
     \<and> snd y = st\<lparr>s_nextHandle := fst y\<rparr>"
proof (rule genHandle.raw_induct
    [where P = "\<lambda>st y. fst y \<noteq> 0 \<and> m_contexts st (fst y) = None \<and> m_windows st (fst y) = None
       \<and> snd y = st\<lparr>s_nextHandle := fst y\<rparr>", OF _ assms])
  fix genHandle' :: "Renderer \<Rightarrow> (HandleType \<times> Renderer) option"
    and st :: Renderer and y :: "HandleType \<times> Renderer"
  let ?st1 = "st\<lparr>s_nextHandle := s_nextHandle st + 1\<rparr>"
  assume IH: "\<And>st y. genHandle' st = Some y \<Longrightarrow>
      fst y \<noteq> 0 \<and> m_contexts st (fst y) = None \<and> m_windows st (fst y) = None
       \<and> snd y = st\<lparr>s_nextHandle := fst y\<rparr>"
    and body: "(let id = s_nextHandle st + 1; st' = st\<lparr>s_nextHandle := id\<rparr>
      in if id = 0 \<or> m_contexts st' id \<noteq> None \<or> m_windows st' id \<noteq> None
         then genHandle' st' else Some (id, st')) = Some y"
  show "fst y \<noteq> 0 \<and> m_contexts st (fst y) = None \<and> m_windows st (fst y) = None
       \<and> snd y = st\<lparr>s_nextHandle := fst y\<rparr>"
  proof (cases "s_nextHandle st + 1 = 0 \<or> m_contexts st (s_nextHandle st + 1) \<noteq> None
      \<or> m_windows st (s_nextHandle st + 1) \<noteq> None")
    case True
    then have "genHandle' ?st1 = Some y"
      using body by (simp add: Let_def)
    from IH [OF this] show ?thesis by simp
  next
    case False
    then have free: "s_nextHandle st + 1 \<noteq> 0" "m_contexts st (s_nextHandle st + 1) = None"
      "m_windows st (s_nextHandle st + 1) = None"
      by blast+
    then have "y = (s_nextHandle st + 1, ?st1)"
      using body by (simp add: Let_def)
    then show ?thesis using free by simp
  qed
qed

lemma genHandle_result:
  "genHandle st = Some (h, st') \<Longrightarrow>
     h \<noteq> 0 \<and> m_contexts st h = None \<and> m_windows st h = None \<and> st' = st\<lparr>s_nextHandle := h\<rparr>"
  using genHandle_result_aux [of st "(h, st')"] by simp

lemma genHandle_returns_aux:
  "f \<noteq> 0 \<Longrightarrow> m_contexts st f = None \<Longrightarrow> m_windows st f = None \<Longrightarrow>
     unat (f - s_nextHandle st - 1) = d \<Longrightarrow> \<exists>r. genHandle st = Some r"
proof (induction d arbitrary: st)
  case 0
  then have "f - s_nextHandle st - 1 = 0" by (simp only: unat_eq_0)
  then have "f = s_nextHandle st + 1" by (simp add: algebra_simps)
  then show ?case using 0 by (subst genHandle.simps) (simp add: Let_def)
next
  case (Suc d)
  let ?st1 = "st\<lparr>s_nextHandle := s_nextHandle st + 1\<rparr>"
  have nz: "f - s_nextHandle st - 1 \<noteq> 0" using Suc.prems(4) by (auto simp: unat_eq_0)
  have "unat (f - s_nextHandle st - 1 - 1) = d"
    using unat_minus_one [OF nz] Suc.prems(4) by simp
  then have "unat (f - s_nextHandle ?st1 - 1) = d" by (simp add: algebra_simps)
  from Suc.IH [of ?st1, OF Suc.prems(1) _ _ this] Suc.prems(2,3)
  have "\<exists>r. genHandle ?st1 = Some r" by simp
  then show ?case by (subst genHandle.simps) (auto simp: Let_def)
qed

lemma genHandle_returns:
  "f \<noteq> 0 \<Longrightarrow> m_contexts st f = None \<Longrightarrow> m_windows st f = None \<Longrightarrow> \<exists>r. genHandle st = Some r"
  by (rule genHandle_returns_aux [where d = "unat (f - s_nextHandle st - 1)"]) simp_all

subsection \<open>Opening and closing\<close>

lemma open_then_close:
  assumes "m_colorbuffers st h = Some c" and "refcount c \<noteq> 0"
  shows "fst (openColorBuffer h st) = 0 \<and> closeColorBuffer h (snd (openColorBuffer h st)) = st"
  using assms
  by (simp add: openColorBuffer_def closeColorBuffer_def release_ref_def map_upd_triv)

lemma opens_refcount:
  "m_colorbuffers st h = Some c \<Longrightarrow>
     m_colorbuffers (opens h n st) h = Some (c\<lparr>refcount := refcount c + of_nat n\<rparr>)"
proof (induction n)
  case 0
  then show ?case by (simp add: opens_def)
next
  case (Suc n)
  then show ?case by (simp add: opens_def openColorBuffer_def algebra_simps)
qed

lemma opens_succeed:
  "m_colorbuffers st h = Some c \<Longrightarrow> fst (openColorBuffer h (opens h j st)) = 0"
  using opens_refcount [of st h c j] by (simp add: openColorBuffer_def)

text \<open>An entry with count \<open>r\<close> survives \<open>k\<close> closes as long as \<open>k \<le> unat (r - 1)\<close>, and
  the next close erases it. For \<open>r = 0\<close> that bound is \<open>2 ^ 32 - 1\<close>.\<close>

lemma closes_refcount:
  "m_colorbuffers st h = Some c \<Longrightarrow> k \<le> unat (refcount c - 1) \<Longrightarrow>
     m_colorbuffers (closes h k st) h = Some (c\<lparr>refcount := refcount c - of_nat k\<rparr>)"
proof (induction k)
  case 0
  then show ?case by (simp add: closes_def)
next
  case (Suc k)
  then have e: "m_colorbuffers (closes h k st) h = Some (c\<lparr>refcount := refcount c - of_nat k\<rparr>)"
    by simp
  have "refcount c - 1 \<noteq> of_nat k"
  proof
    assume "refcount c - 1 = of_nat k"
    then have "unat (refcount c - 1) = k mod 2 ^ 32" by (simp add: unat_of_nat)
    then have "unat (refcount c - 1) \<le> k" by simp
    then show False using Suc.prems(2) by simp
  qed
  then have "refcount c - of_nat k - 1 \<noteq> 0" by (simp add: algebra_simps)
  then show ?case
    using e by (simp add: closes_def closeColorBuffer_def release_ref_def algebra_simps)
qed

lemma closes_last:
  assumes "m_colorbuffers st h = Some c" and "k = unat (refcount c - 1)"
  shows "m_colorbuffers (closes h (Suc k) st) h = None"
proof -
  have e: "m_colorbuffers (closes h k st) h = Some (c\<lparr>refcount := refcount c - of_nat k\<rparr>)"
    using assms by (intro closes_refcount) simp_all
  have "of_nat k = refcount c - 1" using assms(2) by simp
  then have "refcount c - of_nat k - 1 = 0" by simp
  then show ?thesis
    using e by (simp add: closes_def closeColorBuffer_def release_ref_def)
qed

lemma createColorBuffer_entry:
  assumes "createColorBuffer mk w ht fmt st = Some (h, st1)" and "h \<noteq> 0"
  shows "m_colorbuffers st1 h = Some \<lparr>cb = mk w ht fmt, refcount = 1\<rparr>"
  using assms
  by (auto simp: createColorBuffer_def Let_def split: if_splits option.splits)

lemma createColorBuffer_fresh:
  "createColorBuffer (\<lambda>w h f. Some 500) 64 64 0 fresh = Some (1, one_buffer)"
  by (subst createColorBuffer_def, subst genHandle.simps)
    (simp add: fresh_def one_buffer_def)

subsection \<open>The drain loops\<close>

lemma fold_erase_apply:
  "fold (\<lambda>h m. m(h := None)) hs m x = (if x \<in> set hs then None else m x)"
  by (induction hs arbitrary: m) auto

lemma step_windows:
  "m_windows (drainWindowSurface_step w st) = (m_windows st)(w := None)"
  by (auto simp: drainWindowSurface_step_def Let_def split: option.splits)

lemma step_contexts: "m_contexts (drainWindowSurface_step w st) = m_contexts st"
  by (auto simp: drainWindowSurface_step_def Let_def split: option.splits)

lemma step_tinfo: "tinfo (drainWindowSurface_step w st) = tinfo st"
  by (auto simp: drainWindowSurface_step_def Let_def split: option.splits)

lemma fold_step_windows:
  "m_windows (fold drainWindowSurface_step ws st) x = (if x \<in> set ws then None else m_windows st x)"
  by (induction ws arbitrary: st) (auto simp: step_windows)

lemma fold_step_contexts: "m_contexts (fold drainWindowSurface_step ws st) = m_contexts st"
  by (induction ws arbitrary: st) (auto simp: step_contexts)

lemma fold_step_tinfo: "tinfo (fold drainWindowSurface_step ws st) = tinfo st"
  by (induction ws arbitrary: st) (auto simp: step_tinfo)

lemma step_colorbuffers:
  "m_colorbuffers (drainWindowSurface_step w st) =
     (case m_windows st w of
        None \<Rightarrow> m_colorbuffers st
      | Some (s, a) \<Rightarrow> if a \<noteq> 0 then release_ref a (m_colorbuffers st) else m_colorbuffers st)"
  by (auto simp: drainWindowSurface_step_def Let_def split: option.splits)

lemma drained_refs_card:
  "b \<noteq> 0 \<Longrightarrow> drained_refs st ws b = card {w \<in> set ws. attached_to st b w}"
proof -
  assume "b \<noteq> 0"
  have "distinct (filter (attached_to st b) (remdups ws))" by simp
  then have "length (filter (attached_to st b) (remdups ws))
      = card (set (filter (attached_to st b) (remdups ws)))"
    by (simp only: distinct_card)
  also have "set (filter (attached_to st b) (remdups ws)) = {w \<in> set ws. attached_to st b w}"
    by auto
  finally show ?thesis
    using \<open>b \<noteq> 0\<close> by (simp add: drained_refs_def attached_to_def [abs_def])
qed

lemma attached_after_step:
  "attached_to (drainWindowSurface_step w st) b x = (x \<noteq> w \<and> attached_to st b x)"
  by (simp add: attached_to_def step_windows)

lemma card_attached_Cons:
  "card {x \<in> set (w # ws). attached_to st b x} =
     (if attached_to st b w then 1 else 0)
       + card {x \<in> set ws. attached_to (drainWindowSurface_step w st) b x}"
proof -
  let ?R = "{x \<in> set ws. x \<noteq> w \<and> attached_to st b x}"
  have fin: "finite ?R" by simp
  have nin: "w \<notin> ?R" by simp
  show ?thesis
  proof (cases "attached_to st b w")
    case True
    then have "{x \<in> set (w # ws). attached_to st b x} = insert w ?R" by auto
    then show ?thesis using True fin nin by (simp add: attached_after_step)
  next
    case False
    then have "{x \<in> set (w # ws). attached_to st b x} = ?R" by auto
    then show ?thesis using False by (simp add: attached_after_step)
  qed
qed

lemma fold_step_colorbuffers_card:
  assumes "b \<noteq> 0"
  shows "m_colorbuffers (fold drainWindowSurface_step ws st) b =
     (case m_colorbuffers st b of
        None \<Rightarrow> None
      | Some c \<Rightarrow>
          (if card {w \<in> set ws. attached_to st b w} \<le> unat (refcount c - 1)
           then Some (c\<lparr>refcount := refcount c - of_nat (card {w \<in> set ws. attached_to st b w})\<rparr>)
           else None))"
proof (induction ws arbitrary: st)
  case Nil
  then show ?case by (auto split: option.splits)
next
  case (Cons w ws)
  let ?st1 = "drainWindowSurface_step w st"
  let ?k1 = "card {x \<in> set ws. attached_to ?st1 b x}"
  show ?case
  proof (cases "attached_to st b w")
    case True
    then have cb1: "m_colorbuffers ?st1 = release_ref b (m_colorbuffers st)"
      using assms by (auto simp: step_colorbuffers attached_to_def split: option.splits)
    have k: "card {x \<in> set (w # ws). attached_to st b x} = 1 + ?k1"
      using True by (simp add: card_attached_Cons del: set_simps)
    show ?thesis
    proof (cases "m_colorbuffers st b")
      case None
      then have "m_colorbuffers ?st1 b = None" by (simp add: cb1 release_ref_def)
      then have "m_colorbuffers (fold drainWindowSurface_step ws ?st1) b = None"
        using Cons.IH [of ?st1] by simp
      then show ?thesis using None by simp
    next
      case (Some c)
      show ?thesis
      proof (cases "refcount c - 1 = 0")
        case True
        then have "m_colorbuffers ?st1 b = None" using Some by (simp add: cb1 release_ref_def)
        then have "m_colorbuffers (fold drainWindowSurface_step ws ?st1) b = None"
          using Cons.IH [of ?st1] by simp
        then show ?thesis unfolding k using Some True by simp
      next
        case False
        then have e1: "m_colorbuffers ?st1 b = Some (c\<lparr>refcount := refcount c - 1\<rparr>)"
          using Some by (simp add: cb1 release_ref_def)
        have u: "unat (refcount c - 1 - 1) = unat (refcount c - 1) - 1"
          using False by (rule unat_minus_one)
        have p: "0 < unat (refcount c - 1)"
          using False by (simp add: unat_gt_0)
        from Cons.IH [of ?st1] e1
        have "m_colorbuffers (fold drainWindowSurface_step ws ?st1) b =
            (if ?k1 \<le> unat (refcount c - 1 - 1)
             then Some (c\<lparr>refcount := refcount c - 1 - of_nat ?k1\<rparr>) else None)"
          by simp
        moreover have "(?k1 \<le> unat (refcount c - 1 - 1)) = (1 + ?k1 \<le> unat (refcount c - 1))"
          using u p by auto
        ultimately show ?thesis unfolding k using Some by (simp add: algebra_simps)
      qed
    qed
  next
    case False
    then have cb1: "m_colorbuffers ?st1 b = m_colorbuffers st b"
      by (auto simp: step_colorbuffers attached_to_def release_ref_other split: option.splits)
    have k: "card {x \<in> set (w # ws). attached_to st b x} = ?k1"
      using False by (simp add: card_attached_Cons del: set_simps)
    from Cons.IH [of ?st1]
    show ?thesis unfolding k cb1 by simp
  qed
qed

lemma fold_step_colorbuffers_zero:
  "m_colorbuffers (fold drainWindowSurface_step ws st) 0 = m_colorbuffers st 0"
  by (induction ws arbitrary: st)
    (auto simp: step_colorbuffers release_ref_other split: option.splits)

lemma fold_step_colorbuffers:
  assumes "m_colorbuffers st b = Some c"
  shows "m_colorbuffers (fold drainWindowSurface_step ws st) b =
     (if drained_refs st ws b \<le> unat (refcount c - 1)
      then Some (c\<lparr>refcount := refcount c - of_nat (drained_refs st ws b)\<rparr>) else None)"
proof (cases "b = 0")
  case True
  then show ?thesis using assms by (simp add: fold_step_colorbuffers_zero drained_refs_def)
next
  case False
  then show ?thesis
    using fold_step_colorbuffers_card [of b ws st] assms
    by (simp add: drained_refs_card)
qed

lemma fold_step_colorbuffers_absent:
  assumes "m_colorbuffers st b = None"
  shows "m_colorbuffers (fold drainWindowSurface_step ws st) b = None"
proof (cases "b = 0")
  case True
  then show ?thesis using assms by (simp add: fold_step_colorbuffers_zero)
next
  case False
  then show ?thesis
    using fold_step_colorbuffers_card [of b ws st] assms by simp
qed

lemma drainRenderContext_contexts:
  "\<forall>h. m_contexts (drainRenderContext t st) h =
     (if h \<in> set (m_contextSet (tinfo st t)) then None else m_contexts st h)"
  by (simp add: drainRenderContext_def fold_erase_apply)

lemma drainRenderContext_others:
  "\<forall>u. u \<noteq> t \<longrightarrow> tinfo (drainRenderContext t st) u = tinfo st u"
  by (simp add: drainRenderContext_def)

lemma drainRenderContext_idem:
  "drainRenderContext t (drainRenderContext t st) = drainRenderContext t st"
  by (simp add: drainRenderContext_def)

lemma drainWindowSurface_windows:
  "\<forall>h. m_windows (drainWindowSurface t st) h =
     (if h \<in> set (m_windowSet (tinfo st t)) then None else m_windows st h)"
  by (simp add: drainWindowSurface_def Let_def fold_step_windows)

lemma drainWindowSurface_colorbuffers:
  "\<forall>b c. m_colorbuffers st b = Some c \<longrightarrow>
     m_colorbuffers (drainWindowSurface t st) b =
       (if drained_refs st (m_windowSet (tinfo st t)) b \<le> unat (refcount c - 1)
        then Some (c\<lparr>refcount :=
               refcount c - of_nat (drained_refs st (m_windowSet (tinfo st t)) b)\<rparr>)
        else None)"
proof (intro allI impI)
  fix b c
  assume a: "m_colorbuffers st b = Some c"
  show "m_colorbuffers (drainWindowSurface t st) b =
       (if drained_refs st (m_windowSet (tinfo st t)) b \<le> unat (refcount c - 1)
        then Some (c\<lparr>refcount :=
               refcount c - of_nat (drained_refs st (m_windowSet (tinfo st t)) b)\<rparr>)
        else None)"
  proof (cases "m_windowSet (tinfo st t) = []")
    case True
    then show ?thesis using a by (simp add: drainWindowSurface_def drained_refs_def)
  next
    case False
    then show ?thesis
      using a fold_step_colorbuffers [of st b c "m_windowSet (tinfo st t)"]
      by (simp add: drainWindowSurface_def Let_def)
  qed
qed

lemma drainWindowSurface_absent:
  "\<forall>b. m_colorbuffers st b = None \<longrightarrow> m_colorbuffers (drainWindowSurface t st) b = None"
  by (simp add: drainWindowSurface_def Let_def fold_step_colorbuffers_absent)

lemma drainWindowSurface_others:
  "\<forall>u. u \<noteq> t \<longrightarrow> tinfo (drainWindowSurface t st) u = tinfo st u"
  by (simp add: drainWindowSurface_def Let_def fold_step_tinfo)

lemma drainWindowSurface_idem:
  "drainWindowSurface t (drainWindowSurface t st) = drainWindowSurface t st"
proof (cases "m_windowSet (tinfo st t) = []")
  case True
  then show ?thesis by (simp add: drainWindowSurface_def)
next
  case False
  then have "m_windowSet (tinfo (drainWindowSurface t st) t) = []"
    by (simp add: drainWindowSurface_def Let_def)
  then show ?thesis by (subst drainWindowSurface_def) simp
qed

subsection \<open>Destruction and the scoped bind\<close>

lemma DestroyRenderContext_idem:
  "DestroyRenderContext t h (DestroyRenderContext t h st) = DestroyRenderContext t h st"
  by (simp add: DestroyRenderContext_def Let_def set_erase_def)

lemma DestroyWindowSurface_idem:
  "DestroyWindowSurface t h (DestroyWindowSurface t h st) = DestroyWindowSurface t h st"
  by (simp add: DestroyWindowSurface_def Let_def)

lemma release_idem: "release (release p) = release p"
  by (cases p) (simp add: release_def)

lemma release_funpow: "(release ^^ Suc n) p = release p"
  by (induction n) (simp_all add: release_idem)

lemma release_after_failed_bind:
  "\<not> fst (bind_locked st) \<Longrightarrow> \<not> isValid (fst (ScopedBind_ctor st)) \<and> release (ScopedBind_ctor st) = ScopedBind_ctor st"
  by (auto simp: ScopedBind_ctor_def release_def isValid_def split: prod.splits bool.splits)

lemma release_restores:
  assumes "fst (bind_locked st)"
    and "egl_accepts st (egl_currentDrawSurf st) (egl_currentReadSurf st) (egl_currentContext st)"
  shows "isValid (fst (ScopedBind_ctor st))
    \<and> egl_currentContext (snd (release (ScopedBind_ctor st))) = egl_currentContext st
    \<and> egl_currentReadSurf (snd (release (ScopedBind_ctor st))) = egl_currentReadSurf st
    \<and> egl_currentDrawSurf (snd (release (ScopedBind_ctor st))) = egl_currentDrawSurf st
    \<and> \<not> isValid (fst (release (ScopedBind_ctor st)))"
  using assms
  by (auto simp: ScopedBind_ctor_def release_def isValid_def bind_locked_def unbind_locked_def
      eglMakeCurrent_def Let_def split: prod.splits bool.splits if_splits)

section \<open>The claims\<close>

subsection \<open>C1: destroying a surface with an attached colour buffer\<close>

lemma DestroyWindowSurface_colorbuffers:
  "m_colorbuffers (DestroyWindowSurface t s st) = m_colorbuffers st"
  by (simp add: DestroyWindowSurface_def Let_def)

text \<open>
  Claim C1 says that \<^verbatim>\<open>DestroyWindowSurface\<close> on a surface with an attached colour
  buffer decrements that buffer's reference count once, erasing the buffer at zero,
  before the surface entry is removed. \<^verbatim>\<open>DestroyWindowSurface\<close> never touches the
  colour buffer table (\<open>DestroyWindowSurface_colorbuffers\<close>), while the sibling path
  \<^verbatim>\<open>drainWindowSurface\<close> releases the reference. On \<open>two_threads\<close>, surface 3 records
  colour buffer 5 with reference count 2: destroying surface 3 removes it and leaves the
  count at 2, whereas draining thread 0 brings it down to 1.
\<close>

theorem DestroyWindowSurface_keeps_attached_refcount:
  "m_windows two_threads 3 = Some (\<lparr>ws_addr = 200, eglSurface = 31\<rparr>, 5)
   \<and> m_colorbuffers two_threads 5 = Some \<lparr>cb = Some 500, refcount = 2\<rparr>
   \<and> m_windows (DestroyWindowSurface 0 3 two_threads) 3 = None
   \<and> m_colorbuffers (DestroyWindowSurface 0 3 two_threads) 5 = Some \<lparr>cb = Some 500, refcount = 2\<rparr>
   \<and> m_colorbuffers (drainWindowSurface 0 two_threads) 5 = Some \<lparr>cb = Some 500, refcount = 1\<rparr>"
  by (simp add: DestroyWindowSurface_def drainWindowSurface_def drainWindowSurface_step_def
      release_ref_def two_threads_def fresh_def idle_thread_def)

theorem DestroyWindowSurface_keeps_attached_refcount_witness:
  "\<exists>c. m_colorbuffers (DestroyWindowSurface 0 3 two_threads) 5 = Some c \<and> refcount c = 2"
  using DestroyWindowSurface_keeps_attached_refcount by simp

subsection \<open>C2: destruction and the ownership sets\<close>

text \<open>
  Claim C2 says that destroying a context or a surface removes the handle from every
  thread's ownership set. The sets are thread-local and only the calling thread's set is
  reachable: on \<open>two_threads\<close>, thread 0 destroys context 4 and surface 6, which thread 1
  created; both leave their tables and both stay in thread 1's sets.
\<close>

theorem Destroy_leaves_other_threads_sets:
  "m_contexts (DestroyRenderContext 0 4 two_threads) 4 = None
   \<and> 4 \<in> set (m_contextSet (tinfo (DestroyRenderContext 0 4 two_threads) 1))
   \<and> m_windows (DestroyWindowSurface 0 6 two_threads) 6 = None
   \<and> 6 \<in> set (m_windowSet (tinfo (DestroyWindowSurface 0 6 two_threads) 1))"
  by (simp add: DestroyRenderContext_def DestroyWindowSurface_def set_erase_def
      two_threads_def fresh_def idle_thread_def)

text \<open>
  C2 as amended: \<^verbatim>\<open>DestroyRenderContext\<close> removes the handle from the context table
  and from the calling thread's context set, and leaves every other thread's record as
  it was. \<^verbatim>\<open>DestroyWindowSurface\<close> does the same for a surface that is in the window
  table, and changes nothing at all when the handle is absent. Both are idempotent.
\<close>

theorem Destroy_removes_from_calling_thread:
  "m_contexts (DestroyRenderContext t c st) = (m_contexts st)(c := None)
   \<and> set (m_contextSet (tinfo (DestroyRenderContext t c st) t))
        = set (m_contextSet (tinfo st t)) - {c}
   \<and> (\<forall>u. u \<noteq> t \<longrightarrow> tinfo (DestroyRenderContext t c st) u = tinfo st u)
   \<and> DestroyRenderContext t c (DestroyRenderContext t c st) = DestroyRenderContext t c st
   \<and> (m_windows st s \<noteq> None \<longrightarrow>
        m_windows (DestroyWindowSurface t s st) = (m_windows st)(s := None)
        \<and> set (m_windowSet (tinfo (DestroyWindowSurface t s st) t))
             = set (m_windowSet (tinfo st t)) - {s})
   \<and> (m_windows st s = None \<longrightarrow> DestroyWindowSurface t s st = st)
   \<and> (\<forall>u. u \<noteq> t \<longrightarrow> tinfo (DestroyWindowSurface t s st) u = tinfo st u)
   \<and> DestroyWindowSurface t s (DestroyWindowSurface t s st) = DestroyWindowSurface t s st"
proof -
  have a: "m_contexts (DestroyRenderContext t c st) = (m_contexts st)(c := None)"
    and b: "set (m_contextSet (tinfo (DestroyRenderContext t c st) t))
        = set (m_contextSet (tinfo st t)) - {c}"
    and d: "\<forall>u. u \<noteq> t \<longrightarrow> tinfo (DestroyRenderContext t c st) u = tinfo st u"
    by (simp_all add: DestroyRenderContext_def Let_def set_erase_def)
  have e: "m_windows st s \<noteq> None \<longrightarrow>
        m_windows (DestroyWindowSurface t s st) = (m_windows st)(s := None)
        \<and> set (m_windowSet (tinfo (DestroyWindowSurface t s st) t))
             = set (m_windowSet (tinfo st t)) - {s}"
    and f: "m_windows st s = None \<longrightarrow> DestroyWindowSurface t s st = st"
    and g: "\<forall>u. u \<noteq> t \<longrightarrow> tinfo (DestroyWindowSurface t s st) u = tinfo st u"
    by (simp_all add: DestroyWindowSurface_def Let_def set_erase_def)
  show ?thesis
    by (intro conjI) (fact a b d e f g DestroyRenderContext_idem DestroyWindowSurface_idem)+
qed

theorem Destroy_removes_from_calling_thread_witness:
  "m_contexts (DestroyRenderContext 1 4 two_threads) 4 = None
   \<and> set (m_contextSet (tinfo (DestroyRenderContext 1 4 two_threads) 1)) = {}
   \<and> tinfo (DestroyRenderContext 1 4 two_threads) 0 = tinfo two_threads 0
   \<and> m_windows two_threads 6 \<noteq> None
   \<and> m_windows (DestroyWindowSurface 1 6 two_threads) 6 = None
   \<and> set (m_windowSet (tinfo (DestroyWindowSurface 1 6 two_threads) 1)) = {}
   \<and> m_windows two_threads 9 = None
   \<and> DestroyWindowSurface 1 9 two_threads = two_threads"
proof -
  note T = Destroy_removes_from_calling_thread [of 1 4 two_threads 6]
  note U = Destroy_removes_from_calling_thread [of 1 4 two_threads 9]
  have s: "m_contextSet (tinfo two_threads 1) = [4]" "m_windowSet (tinfo two_threads 1) = [6]"
    "m_windows two_threads 6 \<noteq> None" "m_windows two_threads 9 = None"
    by (simp_all add: two_threads_def idle_thread_def)
  show ?thesis using T U s by simp
qed

subsection \<open>C3: uniqueness of allocated handles\<close>

text \<open>
  Claim C3 says that an allocated handle differs from every live handle of all three
  tables. \<^verbatim>\<open>genHandle\<close> tests the context and the window table only. On \<open>wrapped\<close>
  the counter wraps, 0 is skipped, and handle 1 is returned although colour buffer 1 is
  live; \<^verbatim>\<open>createColorBuffer\<close> then overwrites that entry, replacing its buffer and
  resetting its reference count from 2 to 1.
\<close>

theorem genHandle_reissues_live_colorbuffer_handle:
  "m_colorbuffers wrapped 1 = Some \<lparr>cb = Some 500, refcount = 2\<rparr>
   \<and> genHandle wrapped = Some (1, wrapped\<lparr>s_nextHandle := 1\<rparr>)
   \<and> createColorBuffer (\<lambda>w h f. Some 501) 64 64 0 wrapped =
       Some (1, wrapped\<lparr>s_nextHandle := 1,
                 m_colorbuffers := [1 \<mapsto> \<lparr>cb = Some 501, refcount = 1\<rparr>],
                 calls := [ColorBuffer_create 64 64 0]\<rparr>)"
proof -
  have g: "genHandle (wrapped\<lparr>calls := cs\<rparr>) = Some (1, wrapped\<lparr>calls := cs, s_nextHandle := 1\<rparr>)" for cs
    by (subst genHandle.simps, subst genHandle.simps) (simp add: wrapped_def fresh_def)
  have g0: "genHandle wrapped = Some (1, wrapped\<lparr>s_nextHandle := 1\<rparr>)"
    by (subst genHandle.simps, subst genHandle.simps) (simp add: wrapped_def fresh_def)
  have c: "calls wrapped = []" by (simp add: wrapped_def fresh_def)
  show ?thesis
    using g [of "[ColorBuffer_create 64 64 0]"] g0 c
    by (simp add: createColorBuffer_def) (simp add: wrapped_def fresh_def)
qed

theorem genHandle_reissues_live_colorbuffer_handle_witness:
  "(\<exists>c. m_colorbuffers wrapped 1 = Some c) \<and> (\<exists>st'. genHandle wrapped = Some (1, st'))"
  using genHandle_reissues_live_colorbuffer_handle by simp

subsection \<open>C4: a failed bind has no effect\<close>

text \<open>
  Claim C4: when \<^verbatim>\<open>bindContext\<close> is called with at least one non-zero handle and the
  context handle, the draw surface handle, or a read surface handle different from the
  draw handle is not in its table, the call returns \<open>False\<close> and the renderer state is
  exactly what it was: the calling thread's current binding, every table, the backend's
  binding and the call log.
\<close>

theorem bindContext_bad_handle_no_effect:
  assumes "p_context \<noteq> 0 \<or> p_drawSurface \<noteq> 0 \<or> p_readSurface \<noteq> 0"
    and "m_contexts st p_context = None \<or> m_windows st p_drawSurface = None
         \<or> (p_readSurface \<noteq> p_drawSurface \<and> m_windows st p_readSurface = None)"
  shows "bindContext t p_context p_drawSurface p_readSurface st = (False, st)"
proof -
  have "bindContext_lookup p_context p_drawSurface p_readSurface st = None"
    using assms by (auto simp: bindContext_lookup_def split: option.splits)
  then show ?thesis by (simp add: bindContext_def)
qed

theorem bindContext_bad_handle_no_effect_witness:
  "m_windows bound_thread 9 = None \<and> bindContext 0 1 9 9 bound_thread = (False, bound_thread)
   \<and> currContext (tinfo bound_thread 0) = Some \<lparr>rc_addr = 100, eglContext = 21, isGL2 = True\<rparr>"
  using bindContext_bad_handle_no_effect [of 1 9 9 bound_thread 0]
  by (simp add: bound_thread_def fresh_def)

subsection \<open>C5: opening and closing a colour buffer\<close>

lemma open_close_at_zero:
  assumes "m_colorbuffers st h = Some c" and "refcount c = 0"
  shows "m_colorbuffers (closeColorBuffer h (snd (openColorBuffer h st))) h = None"
  using assms by (simp add: openColorBuffer_def closeColorBuffer_def release_ref_def)

text \<open>
  Claim C5 says that on every live colour buffer an open followed by a close restores
  the reference count and keeps the entry, and that after creation and \<open>N\<close> opens the
  entry is erased at close number \<open>N + 1\<close> and not before, for every \<open>N\<close>. The count is a
  32-bit counter. After \<open>2 ^ 32 - 1\<close> opens of the buffer created on \<open>fresh\<close> it is 0
  on a live entry, and the next open followed by a close erases the entry. After
  \<open>2 ^ 32\<close> opens it is back at 1 and the first close erases the entry.
\<close>

theorem refcount_wraps_after_many_opens:
  "createColorBuffer (\<lambda>w h f. Some 500) 64 64 0 fresh = Some (1, one_buffer)
   \<and> m_colorbuffers (opens 1 4294967295 one_buffer) 1 = Some \<lparr>cb = Some 500, refcount = 0\<rparr>
   \<and> m_colorbuffers (closeColorBuffer 1 (snd (openColorBuffer 1 (opens 1 4294967295 one_buffer)))) 1
       = None
   \<and> m_colorbuffers (opens 1 4294967296 one_buffer) 1 = Some \<lparr>cb = Some 500, refcount = 1\<rparr>
   \<and> m_colorbuffers (closes 1 1 (opens 1 4294967296 one_buffer)) 1 = None"
proof -
  have e: "m_colorbuffers one_buffer 1 = Some \<lparr>cb = Some 500, refcount = 1\<rparr>"
    by (simp add: one_buffer_def)
  have a: "m_colorbuffers (opens 1 4294967295 one_buffer) 1 = Some \<lparr>cb = Some 500, refcount = 0\<rparr>"
    using opens_refcount [OF e, of 4294967295] by simp
  have b: "m_colorbuffers (opens 1 4294967296 one_buffer) 1 = Some \<lparr>cb = Some 500, refcount = 1\<rparr>"
    using opens_refcount [OF e, of 4294967296] by simp
  have c: "m_colorbuffers (closeColorBuffer 1 (snd (openColorBuffer 1 (opens 1 4294967295 one_buffer)))) 1
       = None"
    using a by (rule open_close_at_zero) simp
  have "m_colorbuffers (closes 1 (Suc 0) (opens 1 4294967296 one_buffer)) 1 = None"
    using b by (rule closes_last) simp
  then have d: "m_colorbuffers (closes 1 1 (opens 1 4294967296 one_buffer)) 1 = None"
    by simp
  show ?thesis using createColorBuffer_fresh a b c d by simp
qed

text \<open>
  C5 as amended. First part: on a live colour buffer whose reference count is not 0,
  \<^verbatim>\<open>openColorBuffer\<close> succeeds and the \<^verbatim>\<open>closeColorBuffer\<close> that follows restores
  the whole state, so the count is back at its value and the entry is present. Second
  part: after a successful \<^verbatim>\<open>createColorBuffer\<close> returning \<open>h'\<close>, for every
  \<open>n < 2 ^ 32\<close>, \<open>n\<close> opens all succeed; after \<open>k \<le> n\<close> closes the entry is still
  present with count \<open>n + 1 - k\<close> (as a 32-bit value), and the close number \<open>n + 1\<close>
  erases it.
\<close>

theorem open_close_refcount_balance:
  "(m_colorbuffers st h = Some c \<and> refcount c \<noteq> 0 \<longrightarrow>
      fst (openColorBuffer h st) = 0 \<and> closeColorBuffer h (snd (openColorBuffer h st)) = st)
   \<and> (createColorBuffer mk w ht fmt st0 = Some (h', st1) \<and> h' \<noteq> 0 \<and> n < 2 ^ 32 \<longrightarrow>
        (\<forall>j<n. fst (openColorBuffer h' (opens h' j st1)) = 0)
        \<and> (\<forall>k\<le>n. \<exists>c'. m_colorbuffers (closes h' k (opens h' n st1)) h' = Some c'
                       \<and> refcount c' = of_nat (n + 1 - k))
        \<and> m_colorbuffers (closes h' (Suc n) (opens h' n st1)) h' = None)"
proof -
  have second: "(\<forall>j<n. fst (openColorBuffer h' (opens h' j st1)) = 0)
        \<and> (\<forall>k\<le>n. \<exists>c'. m_colorbuffers (closes h' k (opens h' n st1)) h' = Some c'
                       \<and> refcount c' = of_nat (n + 1 - k))
        \<and> m_colorbuffers (closes h' (Suc n) (opens h' n st1)) h' = None"
    if cr: "createColorBuffer mk w ht fmt st0 = Some (h', st1)" and nz: "h' \<noteq> 0"
      and small: "n < 2 ^ 32"
  proof -
    let ?c = "\<lparr>cb = mk w ht fmt, refcount = 1\<rparr>"
    let ?d = "\<lparr>cb = mk w ht fmt, refcount = 1 + of_nat n\<rparr>"
    have e: "m_colorbuffers st1 h' = Some ?c"
      using cr nz by (rule createColorBuffer_entry)
    have o: "m_colorbuffers (opens h' n st1) h' = Some ?d"
      using opens_refcount [OF e, of n] by simp
    have u: "unat (refcount ?d - 1) = n"
      using small by (simp add: unat_of_nat)
    have a: "\<forall>j<n. fst (openColorBuffer h' (opens h' j st1)) = 0"
      using opens_succeed [OF e] by simp
    have b: "\<exists>c'. m_colorbuffers (closes h' k (opens h' n st1)) h' = Some c'
                       \<and> refcount c' = of_nat (n + 1 - k)" if "k \<le> n" for k
    proof -
      have "k \<le> unat (refcount ?d - 1)"
        using that u by simp
      with o have "m_colorbuffers (closes h' k (opens h' n st1)) h'
          = Some (?d\<lparr>refcount := refcount ?d - of_nat k\<rparr>)"
        by (rule closes_refcount)
      moreover have "(1::32 word) + of_nat n - of_nat k = of_nat (n + 1 - k)"
        using that by (simp add: of_nat_diff)
      ultimately show ?thesis by simp
    qed
    have c: "m_colorbuffers (closes h' (Suc n) (opens h' n st1)) h' = None"
      using o u [symmetric] by (rule closes_last)
    show ?thesis using a b c by blast
  qed
  show ?thesis using open_then_close [of st h c] second by blast
qed

theorem open_close_refcount_balance_witness:
  "createColorBuffer (\<lambda>w h f. Some 500) 64 64 0 fresh = Some (1, one_buffer)
   \<and> m_colorbuffers one_buffer 1 = Some \<lparr>cb = Some 500, refcount = 1\<rparr>
   \<and> closeColorBuffer 1 (snd (openColorBuffer 1 one_buffer)) = one_buffer
   \<and> m_colorbuffers (closes 1 3 (opens 1 2 one_buffer)) 1 = None
   \<and> (\<exists>c'. m_colorbuffers (closes 1 2 (opens 1 2 one_buffer)) 1 = Some c' \<and> refcount c' = 1)"
proof -
  have e: "m_colorbuffers one_buffer 1 = Some \<lparr>cb = Some 500, refcount = 1\<rparr>"
    by (simp add: one_buffer_def)
  have s: "(3::nat) = Suc 2" by simp
  show ?thesis
    using open_close_refcount_balance [where st = one_buffer and h = 1
        and c = "\<lparr>cb = Some 500, refcount = 1\<rparr>" and mk = "\<lambda>w h f. Some 500" and w = 64
        and ht = 64 and fmt = 0 and ?st0.0 = fresh and h' = 1 and ?st1.0 = one_buffer and n = 2]
      createColorBuffer_fresh e
    unfolding s by auto
qed

subsection \<open>C6: draining a thread\<close>

lemma stale_owner_arises:
  "\<exists>s1. createRenderContext (\<lambda>c s g. Some \<lparr>rc_addr = 100, eglContext = 21, isGL2 = g\<rparr>)
            0 0 0 True fresh = Some (1, s1)
        \<and> (DestroyRenderContext 1 1 s1)\<lparr>s_nextHandle := 0xFFFFFFFF, calls := []\<rparr> = stale_owner"
  by (subst createRenderContext_def, subst genHandle.simps)
    (simp add: DestroyRenderContext_def set_insert_def fresh_def idle_thread_def stale_owner_def)

text \<open>
  Claim C6 says that a drain leaves every object created by other threads untouched.
  A drain erases whatever the handles in the calling thread's sets denote now. On
  \<open>stale_owner\<close> thread 0 still holds handle 1 of a context that thread 1 destroyed
  (\<open>stale_owner_arises\<close>); the counter wraps and thread 1's new context gets handle 1.
  \<^verbatim>\<open>drainRenderContext\<close> by thread 0 then erases the context that thread 1 created
  and still owns.
\<close>

theorem drain_erases_reissued_handle_of_other_thread:
  "createRenderContext (\<lambda>c s g. Some \<lparr>rc_addr = 103, eglContext = 24, isGL2 = g\<rparr>)
      1 0 0 True stale_owner = Some (1, reissued)
   \<and> m_contexts reissued 1 = Some \<lparr>rc_addr = 103, eglContext = 24, isGL2 = True\<rparr>
   \<and> m_contextSet (tinfo reissued 1) = [1]
   \<and> m_contexts (drainRenderContext 0 reissued) 1 = None
   \<and> m_contextSet (tinfo (drainRenderContext 0 reissued) 1) = [1]"
proof -
  have g: "genHandle (stale_owner\<lparr>calls := cs\<rparr>)
      = Some (1, stale_owner\<lparr>calls := cs, s_nextHandle := 1\<rparr>)" for cs
    by (subst genHandle.simps, subst genHandle.simps) (simp add: stale_owner_def fresh_def)
  have k: "m_configs stale_owner 0 = Some 7" "calls stale_owner = []"
    by (simp_all add: stale_owner_def fresh_def)
  have a: "createRenderContext (\<lambda>c s g. Some \<lparr>rc_addr = 103, eglContext = 24, isGL2 = g\<rparr>)
      1 0 0 True stale_owner = Some (1, reissued)"
    using g [of "[RenderContext_create 7 0 True]"] k
    by (simp add: createRenderContext_def)
      (simp add: set_insert_def fresh_def idle_thread_def stale_owner_def reissued_def)
  have b: "m_contexts reissued 1 = Some \<lparr>rc_addr = 103, eglContext = 24, isGL2 = True\<rparr>"
    and c: "m_contextSet (tinfo reissued 1) = [1]"
    and d: "m_contexts (drainRenderContext 0 reissued) 1 = None"
    and e: "m_contextSet (tinfo (drainRenderContext 0 reissued) 1) = [1]"
    by (simp_all add: drainRenderContext_def reissued_def idle_thread_def)
  show ?thesis using a b c d e by simp
qed

text \<open>
  C6 as amended: \<^verbatim>\<open>drainRenderContext\<close> erases from the context table exactly the
  handles of the calling thread's context set, whatever they denote, and leaves alone
  every context whose handle is not in that set, the other tables and the other threads'
  records; it empties the set. \<^verbatim>\<open>drainWindowSurface\<close> erases from the window table
  exactly the handles of the calling thread's window set and leaves alone every surface
  whose handle is not in that set, the context table and the other threads' records; a
  colour buffer with count \<open>r\<close> to which \<open>k\<close> of the drained live surfaces are attached
  ends with count \<open>r - k\<close> when \<open>k \<le> unat (r - 1)\<close>, that is while no decrement has
  reached zero, and is erased otherwise; no colour buffer appears. Both are the
  identity when the calling thread owns nothing, and both are idempotent.
\<close>

theorem drain_removes_exactly_owned:
  "(\<forall>h. m_contexts (drainRenderContext t st) h =
          (if h \<in> set (m_contextSet (tinfo st t)) then None else m_contexts st h))
   \<and> m_windows (drainRenderContext t st) = m_windows st
   \<and> m_colorbuffers (drainRenderContext t st) = m_colorbuffers st
   \<and> m_contextSet (tinfo (drainRenderContext t st) t) = []
   \<and> (\<forall>u. u \<noteq> t \<longrightarrow> tinfo (drainRenderContext t st) u = tinfo st u)
   \<and> (m_contextSet (tinfo st t) = [] \<longrightarrow> drainRenderContext t st = st)
   \<and> drainRenderContext t (drainRenderContext t st) = drainRenderContext t st
   \<and> (\<forall>h. m_windows (drainWindowSurface t st) h =
          (if h \<in> set (m_windowSet (tinfo st t)) then None else m_windows st h))
   \<and> m_contexts (drainWindowSurface t st) = m_contexts st
   \<and> (\<forall>b c. m_colorbuffers st b = Some c \<longrightarrow>
          m_colorbuffers (drainWindowSurface t st) b =
            (if drained_refs st (m_windowSet (tinfo st t)) b \<le> unat (refcount c - 1)
             then Some (c\<lparr>refcount :=
                    refcount c - of_nat (drained_refs st (m_windowSet (tinfo st t)) b)\<rparr>)
             else None))
   \<and> (\<forall>b. m_colorbuffers st b = None \<longrightarrow> m_colorbuffers (drainWindowSurface t st) b = None)
   \<and> m_windowSet (tinfo (drainWindowSurface t st) t) = []
   \<and> (\<forall>u. u \<noteq> t \<longrightarrow> tinfo (drainWindowSurface t st) u = tinfo st u)
   \<and> (m_windowSet (tinfo st t) = [] \<longrightarrow> drainWindowSurface t st = st)
   \<and> drainWindowSurface t (drainWindowSurface t st) = drainWindowSurface t st"
proof -
  have a: "m_windows (drainRenderContext t st) = m_windows st"
    and b: "m_colorbuffers (drainRenderContext t st) = m_colorbuffers st"
    and c: "m_contextSet (tinfo (drainRenderContext t st) t) = []"
    and d: "m_contextSet (tinfo st t) = [] \<longrightarrow> drainRenderContext t st = st"
    by (simp_all add: drainRenderContext_def)
  have e: "m_contexts (drainWindowSurface t st) = m_contexts st"
    and f: "m_windowSet (tinfo (drainWindowSurface t st) t) = []"
    and g: "m_windowSet (tinfo st t) = [] \<longrightarrow> drainWindowSurface t st = st"
    by (simp_all add: drainWindowSurface_def Let_def fold_step_contexts)
  show ?thesis
    by (intro conjI)
      (fact drainRenderContext_contexts a b c drainRenderContext_others d drainRenderContext_idem
        drainWindowSurface_windows e drainWindowSurface_colorbuffers drainWindowSurface_absent f
        drainWindowSurface_others g drainWindowSurface_idem)+
qed

theorem drain_removes_exactly_owned_witness:
  "m_contexts (drainRenderContext 0 two_threads) 1 = None
   \<and> m_contexts (drainRenderContext 0 two_threads) 2 = None
   \<and> m_contexts (drainRenderContext 0 two_threads) 4
       = Some \<lparr>rc_addr = 102, eglContext = 23, isGL2 = True\<rparr>
   \<and> m_windows (drainWindowSurface 0 two_threads) 3 = None
   \<and> m_windows (drainWindowSurface 0 two_threads) 6 = Some (\<lparr>ws_addr = 201, eglSurface = 32\<rparr>, 0)
   \<and> m_colorbuffers (drainWindowSurface 0 two_threads) 5 = Some \<lparr>cb = Some 500, refcount = 1\<rparr>
   \<and> tinfo (drainWindowSurface 0 two_threads) 1 = tinfo two_threads 1
   \<and> m_contextSet (tinfo two_threads 2) = []
   \<and> drainRenderContext 2 two_threads = two_threads"
proof -
  note T = drain_removes_exactly_owned [of 0 two_threads]
  note U = drain_removes_exactly_owned [of 2 two_threads]
  have s: "m_contextSet (tinfo two_threads 0) = [1, 2]" "m_windowSet (tinfo two_threads 0) = [3]"
    "m_contextSet (tinfo two_threads 2) = []"
    by (simp_all add: two_threads_def idle_thread_def)
  have m: "m_contexts two_threads 4 = Some \<lparr>rc_addr = 102, eglContext = 23, isGL2 = True\<rparr>"
    "m_windows two_threads 6 = Some (\<lparr>ws_addr = 201, eglSurface = 32\<rparr>, 0)"
    "m_colorbuffers two_threads 5 = Some \<lparr>cb = Some 500, refcount = 2\<rparr>"
    by (simp_all add: two_threads_def)
  have k: "drained_refs two_threads [3] 5 = 1"
    by (simp add: drained_refs_def two_threads_def)
  have c1: "m_contexts (drainRenderContext 0 two_threads) 1 = None"
    and c2: "m_contexts (drainRenderContext 0 two_threads) 2 = None"
    and c4: "m_contexts (drainRenderContext 0 two_threads) 4
       = Some \<lparr>rc_addr = 102, eglContext = 23, isGL2 = True\<rparr>"
    using T s m by simp_all
  have w3: "m_windows (drainWindowSurface 0 two_threads) 3 = None"
    and w6: "m_windows (drainWindowSurface 0 two_threads) 6
       = Some (\<lparr>ws_addr = 201, eglSurface = 32\<rparr>, 0)"
    using T s m by simp_all
  let ?c = "\<lparr>cb = Some 500, refcount = 2\<rparr>"
  have "m_colorbuffers two_threads 5 = Some ?c \<longrightarrow>
      m_colorbuffers (drainWindowSurface 0 two_threads) 5 =
      (if drained_refs two_threads (m_windowSet (tinfo two_threads 0)) 5 \<le> unat (refcount ?c - 1)
       then Some (?c\<lparr>refcount :=
             refcount ?c - of_nat (drained_refs two_threads (m_windowSet (tinfo two_threads 0)) 5)\<rparr>)
       else None)"
    using T by blast
  with m(3) have b5: "m_colorbuffers (drainWindowSurface 0 two_threads) 5
      = Some \<lparr>cb = Some 500, refcount = 1\<rparr>"
    by (simp add: s k)
  have o: "tinfo (drainWindowSurface 0 two_threads) 1 = tinfo two_threads 1"
    using T by simp
  have n: "drainRenderContext 2 two_threads = two_threads"
    using U s(3) by blast
  show ?thesis using c1 c2 c4 w3 w6 b5 o s(3) n by simp
qed

subsection \<open>C7: unbinding\<close>

text \<open>
  Claim C7 says that \<^verbatim>\<open>bindContext(0, 0, 0)\<close> always succeeds and clears the calling
  thread's current binding. The call is subject to the same \<^verbatim>\<open>eglMakeCurrent\<close> test
  as any other bind: on a driver that refuses the request it returns \<open>False\<close> and the
  thread's binding stays.
\<close>

theorem bindContext_unbind_can_fail:
  "bindContext 0 0 0 0 stubborn_driver = (False, stubborn_driver)
   \<and> currContext (tinfo stubborn_driver 0) = Some \<lparr>rc_addr = 100, eglContext = 21, isGL2 = True\<rparr>"
  by (simp add: bindContext_def bindContext_lookup_def eglMakeCurrent_def stubborn_driver_def
      bound_thread_def fresh_def)

text \<open>
  C7 as amended: \<^verbatim>\<open>bindContext(0, 0, 0)\<close> looks no handle up and asks the backend to
  make nothing current. When the backend accepts, the call returns \<open>True\<close>, the calling
  thread's current context, draw surface and read surface are all none and nothing is
  current on the backend; when the backend refuses, the call returns \<open>False\<close> and the
  state is unchanged.
\<close>

theorem bindContext_unbind:
  "(egl_accepts st 0 0 0 \<longrightarrow>
      fst (bindContext t 0 0 0 st)
      \<and> currContext (tinfo (snd (bindContext t 0 0 0 st)) t) = None
      \<and> currDrawSurf (tinfo (snd (bindContext t 0 0 0 st)) t) = None
      \<and> currReadSurf (tinfo (snd (bindContext t 0 0 0 st)) t) = None
      \<and> egl_currentContext (snd (bindContext t 0 0 0 st)) = 0
      \<and> egl_currentDrawSurf (snd (bindContext t 0 0 0 st)) = 0
      \<and> egl_currentReadSurf (snd (bindContext t 0 0 0 st)) = 0)
   \<and> (\<not> egl_accepts st 0 0 0 \<longrightarrow> bindContext t 0 0 0 st = (False, st))"
  by (simp add: bindContext_def bindContext_lookup_def eglMakeCurrent_def Let_def)

theorem bindContext_unbind_witness:
  "egl_accepts bound_thread 0 0 0 \<and> fst (bindContext 0 0 0 0 bound_thread)
   \<and> currContext (tinfo (snd (bindContext 0 0 0 0 bound_thread)) 0) = None
   \<and> \<not> egl_accepts stubborn_driver 0 0 0
   \<and> bindContext 0 0 0 0 stubborn_driver = (False, stubborn_driver)"
  using bindContext_unbind [of bound_thread 0] bindContext_unbind [of stubborn_driver 0]
  by (simp add: stubborn_driver_def bound_thread_def fresh_def)

subsection \<open>C8: the scoped bind\<close>

text \<open>
  Claim C8: when \<^verbatim>\<open>bind_locked\<close> fails in the constructor of \<^verbatim>\<open>ScopedBind\<close>, the
  scope is not valid and \<^verbatim>\<open>release\<close> changes nothing. When it succeeds and the
  backend accepts the request to go back, \<^verbatim>\<open>release\<close> makes the context, read surface
  and draw surface that were current before the constructor current again. After any
  \<^verbatim>\<open>release\<close> the scope holds nothing, and every further \<^verbatim>\<open>release\<close>, the
  destructor's included, has no effect.
\<close>

theorem ScopedBind_release_safe_and_idempotent:
  "(\<not> fst (bind_locked st) \<longrightarrow>
      \<not> isValid (fst (ScopedBind_ctor st)) \<and> release (ScopedBind_ctor st) = ScopedBind_ctor st)
   \<and> (fst (bind_locked st)
        \<and> egl_accepts st (egl_currentDrawSurf st) (egl_currentReadSurf st) (egl_currentContext st) \<longrightarrow>
      isValid (fst (ScopedBind_ctor st))
      \<and> egl_currentContext (snd (release (ScopedBind_ctor st))) = egl_currentContext st
      \<and> egl_currentReadSurf (snd (release (ScopedBind_ctor st))) = egl_currentReadSurf st
      \<and> egl_currentDrawSurf (snd (release (ScopedBind_ctor st))) = egl_currentDrawSurf st)
   \<and> \<not> isValid (fst (release p))
   \<and> (release ^^ Suc n) p = release p"
proof -
  have "\<not> isValid (fst (release p))"
    by (cases p) (simp add: release_def isValid_def)
  then show ?thesis
    using release_after_failed_bind [of st] release_restores [of st] release_funpow [of n p]
    by blast
qed

theorem ScopedBind_release_safe_and_idempotent_witness:
  "\<not> fst (bind_locked stubborn_driver)
   \<and> release (ScopedBind_ctor stubborn_driver) = ScopedBind_ctor stubborn_driver
   \<and> fst (bind_locked bound_thread)
   \<and> egl_currentContext (snd (ScopedBind_ctor bound_thread)) = 12
   \<and> egl_currentContext (snd (release (ScopedBind_ctor bound_thread))) = 21
   \<and> (release ^^ 3) (ScopedBind_ctor bound_thread) = release (ScopedBind_ctor bound_thread)"
proof -
  have a: "\<not> fst (bind_locked stubborn_driver)"
    by (simp add: bind_locked_def eglMakeCurrent_def stubborn_driver_def bound_thread_def fresh_def)
  have b: "fst (bind_locked bound_thread)"
    by (simp add: bind_locked_def eglMakeCurrent_def bound_thread_def fresh_def)
  have c: "egl_accepts bound_thread (egl_currentDrawSurf bound_thread)
     (egl_currentReadSurf bound_thread) (egl_currentContext bound_thread)"
    by (simp add: bound_thread_def fresh_def)
  have d: "egl_currentContext bound_thread = 21"
    by (simp add: bound_thread_def fresh_def)
  have e: "egl_currentContext (snd (ScopedBind_ctor bound_thread)) = 12"
    by (simp add: ScopedBind_ctor_def bind_locked_def eglMakeCurrent_def bound_thread_def fresh_def)
  have f: "(3::nat) = Suc 2" by simp
  show ?thesis
    using ScopedBind_release_safe_and_idempotent [of stubborn_driver "ScopedBind_ctor bound_thread" 2]
      ScopedBind_release_safe_and_idempotent [of bound_thread "ScopedBind_ctor bound_thread" 2]
      a b c d e unfolding f by simp
qed

subsection \<open>C9: replacing an attachment\<close>

text \<open>
  Claim C9: \<^verbatim>\<open>setWindowSurfaceColorBuffer\<close> on a live surface that records \<open>b_old\<close>
  and a live colour buffer \<open>b_new\<close> succeeds, records \<open>b_new\<close> for the surface and leaves
  the colour buffer table as it was; in particular the entry of \<open>b_old\<close> keeps its
  reference count and is not erased.
\<close>

theorem setWindowSurfaceColorBuffer_replaces_without_release:
  assumes "m_windows st p_surface = Some (ws, b_old)"
    and "m_colorbuffers st b_new = Some c"
  shows "fst (setWindowSurfaceColorBuffer p_surface b_new st)
    \<and> m_windows (snd (setWindowSurfaceColorBuffer p_surface b_new st)) p_surface = Some (ws, b_new)
    \<and> m_colorbuffers (snd (setWindowSurfaceColorBuffer p_surface b_new st)) b_old
        = m_colorbuffers st b_old
    \<and> m_colorbuffers (snd (setWindowSurfaceColorBuffer p_surface b_new st)) = m_colorbuffers st"
  using assms by (simp add: setWindowSurfaceColorBuffer_def)

theorem setWindowSurfaceColorBuffer_replaces_without_release_witness:
  "m_windows reattach 3 = Some (\<lparr>ws_addr = 200, eglSurface = 31\<rparr>, 5)
   \<and> m_colorbuffers reattach 7 = Some \<lparr>cb = Some 501, refcount = 1\<rparr>
   \<and> fst (setWindowSurfaceColorBuffer 3 7 reattach)
   \<and> m_windows (snd (setWindowSurfaceColorBuffer 3 7 reattach)) 3
       = Some (\<lparr>ws_addr = 200, eglSurface = 31\<rparr>, 7)
   \<and> m_colorbuffers (snd (setWindowSurfaceColorBuffer 3 7 reattach)) 5
       = Some \<lparr>cb = Some 500, refcount = 2\<rparr>"
proof -
  have w: "m_windows reattach 3 = Some (\<lparr>ws_addr = 200, eglSurface = 31\<rparr>, 5)"
    and n: "m_colorbuffers reattach 7 = Some \<lparr>cb = Some 501, refcount = 1\<rparr>"
    and b: "m_colorbuffers reattach 5 = Some \<lparr>cb = Some 500, refcount = 2\<rparr>"
    by (simp_all add: reattach_def two_threads_def)
  show ?thesis
    using setWindowSurfaceColorBuffer_replaces_without_release [OF w n] w n b by simp
qed

subsection \<open>C10: creation with an unknown configuration\<close>

text \<open>
  Claim C10: when the configuration id is unknown, \<^verbatim>\<open>createRenderContext\<close> and
  \<^verbatim>\<open>createWindowSurface\<close> return 0 and the state is exactly what it was: no table
  and no ownership set changes, and the call log shows that no backend object creation
  was attempted.
\<close>

theorem create_unknown_config_no_effect:
  assumes "m_configs st p_config = None"
  shows "createRenderContext mkc t p_config p_share p_isGL2 st = Some (0, st)
    \<and> createWindowSurface mkw t p_config p_width p_height st = Some (0, st)"
  using assms by (simp add: createRenderContext_def createWindowSurface_def)

theorem create_unknown_config_no_effect_witness:
  "m_configs fresh 5 = None
   \<and> createRenderContext (\<lambda>c s g. Some \<lparr>rc_addr = 1, eglContext = 2, isGL2 = g\<rparr>) 0 5 0 True fresh
       = Some (0, fresh)
   \<and> createWindowSurface (\<lambda>c w h. Some \<lparr>ws_addr = 1, eglSurface = 2\<rparr>) 0 5 64 64 fresh
       = Some (0, fresh)
   \<and> calls fresh = []"
  using create_unknown_config_no_effect [of fresh 5]
  by (simp add: fresh_def)

end
